theory Spec2Isabelle
  imports Main "HOL-Library.Sublist" "HOL-Library.AList"
begin

section \<open>Strings and paths\<close>

text \<open>
  JavaScript strings are modelled as \<open>string\<close>. \<open>String.prototype.startsWith\<close> is
  \<^const>\<open>prefix\<close>; \<open>String.prototype.includes\<close> is the substring test below.
\<close>

type_synonym fpath = string

fun str_includes :: "string \<Rightarrow> string \<Rightarrow> bool" where
  "str_includes [] pat = (pat = [])"
| "str_includes (c # cs) pat = (prefix pat (c # cs) \<or> str_includes cs pat)"

text \<open>\<open>filePath.replace(/\\/g, '/')\<close>: every backslash becomes a slash.\<close>

definition replace_backslashes :: "string \<Rightarrow> string" where
  "replace_backslashes s = map (\<lambda>c. if c = CHR 0x5C then CHR ''/'' else c) s"

text \<open>
  Node's \<open>path\<close> module on a POSIX platform, as far as the preview code uses it:
  a path is cut at its slashes, empty and \<open>.\<close> segments are dropped and a \<open>..\<close>
  segment removes the segment before it (at the root of an absolute path it is dropped,
  at the start of a relative path it is kept).
\<close>

fun split_slash :: "string \<Rightarrow> string list" where
  "split_slash [] = [Nil]"
| "split_slash (c # cs) =
     (if c = CHR ''/'' then [] # split_slash cs
      else (case split_slash cs of
              [] \<Rightarrow> [c # Nil]
            | seg # segs \<Rightarrow> (c # seg) # segs))"

fun norm_segs :: "bool \<Rightarrow> string list \<Rightarrow> string list \<Rightarrow> string list" where
  "norm_segs absolute acc [] = rev acc"
| "norm_segs absolute acc (seg # segs) =
     (if seg = [] \<or> seg = ''.'' then norm_segs absolute acc segs
      else if seg = ''..'' then
        (case acc of
           [] \<Rightarrow> norm_segs absolute (if absolute then [] else [''..'']) segs
         | a # acc' \<Rightarrow>
             if a = ''..'' then norm_segs absolute (''..'' # a # acc') segs
             else norm_segs absolute acc' segs)
      else norm_segs absolute (seg # acc) segs)"

fun join_slash :: "string list \<Rightarrow> string" where
  "join_slash [] = []"
| "join_slash [seg] = seg"
| "join_slash (seg # segs) = seg @ ''/'' @ join_slash segs"

definition is_absolute :: "fpath \<Rightarrow> bool" where
  "is_absolute p = (case p of [] \<Rightarrow> False | c # _ \<Rightarrow> c = CHR ''/'')"

definition resolved_segs :: "fpath \<Rightarrow> fpath \<Rightarrow> string list" where
  "resolved_segs cwd p =
     norm_segs True [] (split_slash (if is_absolute p then p else cwd @ ''/'' @ p))"


fun strip_common :: "string list \<Rightarrow> string list \<Rightarrow> string list \<times> string list" where
  "strip_common (a # as) (b # bs) =
     (if a = b then strip_common as bs else (a # as, b # bs))"
| "strip_common as bs = (as, bs)"

text \<open>\<open>path.relative(from, to)\<close>: climb out of what is left of \<open>from\<close>, descend into \<open>to\<close>.\<close>

definition path_relative :: "fpath \<Rightarrow> fpath \<Rightarrow> fpath \<Rightarrow> fpath" where
  "path_relative cwd src dst =
     (case strip_common (resolved_segs cwd src) (resolved_segs cwd dst) of
        (up, down) \<Rightarrow> join_slash (map (\<lambda>_. ''..'') up @ down))"

text \<open>\<open>path.join(a, b)\<close>: the two parts joined by a slash, then normalised.\<close>

definition path_join :: "fpath \<Rightarrow> fpath \<Rightarrow> fpath" where
  "path_join a b =
     (let segs = norm_segs (is_absolute a) [] (split_slash (a @ ''/'' @ b)) in
      if is_absolute a then CHR ''/'' # join_slash segs
      else if segs = [] then ''.'' else join_slash segs)"

section \<open>The file watcher's exclusion test\<close>

text \<open>\<open>LivePreview.watchPatterns.exclude\<close>, in the order of the array literal.\<close>

definition watchPatterns_exclude :: "string list" where
  "watchPatterns_exclude =
     [''node_modules/**/*'', ''dist/**/*'', ''build/**/*'', ''.git/**/*'',
      ''**/*.log'', ''**/.DS_Store'', ''**/.env'']"

text \<open>
  \<open>LivePreview.shouldIgnoreFile\<close>: the loop over the exclude patterns first, then the
  fixed names, each by \<open>str_includes\<close> on the normalised path.
\<close>

definition shouldIgnoreFile :: "fpath \<Rightarrow> bool" where
  "shouldIgnoreFile filePath =
     (let normalizedPath = replace_backslashes filePath in
      if list_ex (\<lambda>pattern. str_includes normalizedPath pattern) watchPatterns_exclude then True
      else if str_includes normalizedPath ''node_modules'' then True
      else if str_includes normalizedPath ''dist'' then True
      else if str_includes normalizedPath ''build'' then True
      else if str_includes normalizedPath ''.git'' then True
      else if str_includes normalizedPath ''.tmp'' \<or> str_includes normalizedPath ''.swp'' then True
      else False)"

section \<open>LivePreview: data\<close>

type_synonym pid = string
type_synonym wsid = nat
type_synonym port = nat
type_synonym time = nat

text \<open>
  The project descriptor as \<open>LivePreview\<close> reads it: \<open>project.id\<close>, \<open>project.name\<close>,
  \<open>project.path\<close>, \<open>project.config.typescript\<close> and \<open>project.config.proxy\<close>
  (the entries of the object in declaration order; no entry when the field is absent).
\<close>

record project_config =
  typescript :: bool
  proxy :: "(string \<times> string) list"

record project =
  proj_id :: pid
  proj_name :: string
  proj_path :: fpath
  proj_config :: project_config

datatype change_kind = modified | added | removed

text \<open>The \<open>changeInfo\<close> object built by \<open>handleFileChange\<close>.\<close>

record changeInfo =
  ci_projectId :: pid
  ci_filePath :: fpath
  ci_absolutePath :: fpath
  ci_type :: change_kind
  ci_timestamp :: time

text \<open>
  The JSON messages the class sends over a WebSocket, one constructor per \<open>type\<close> string
  that occurs in the source, with the fields of the object literal in their order.
\<close>

datatype message =
    project_added pid string string string
  | file_change changeInfo
  | rebuild_complete pid string time
  | rebuild_error pid string time
  | watcher_error pid string time
  | preview_started pid string time
  | preview_stopped pid time
  | project_state pid string string port
  | projects_list "(pid \<times> string \<times> string \<times> string) list"

text \<open>
  An entry of \<open>previewServers\<close>. The \<open>http.Server\<close> object is identified by the port it
  listens on.
\<close>

record server_info =
  si_project :: project
  si_url :: string
  si_port :: port
  si_status :: string
  si_startTime :: time

text \<open>The outcome of \<open>execAsync('npx tsc')\<close>: the promise resolves, or rejects with a message.\<close>

datatype exec_result = exec_ok | exec_error string

text \<open>
  The state of a \<open>LivePreview\<close> object and of the runtime around it.

  \<^item> \<open>previewServers\<close>, \<open>projectWatchers\<close>, \<open>connections\<close> are the three \<open>Map\<close>s of the
    constructor, as association lists in insertion order; a \<open>Set\<close> of sockets is a list
    without duplicates in insertion order.
  \<^item> \<open>rebuildQueue\<close> is a \<open>Set\<close> of \<open>changeInfo\<close> objects. Objects are compared by identity
    and every \<open>changeInfo\<close> is a new object literal, so \<open>add\<close> always adds: a list.
  \<^item> \<open>rebuildTimeouts\<close> is the object of timer handles by project id (\<open>undefined\<close> before
    the first use, which reads like the empty object).
  \<^item> \<open>timers\<close> are the pending \<open>setTimeout\<close> callbacks: handle, due time, and the project
    the callback closes over. \<open>inflight\<close> are the runs of \<open>rebuildProject\<close> suspended at
    \<open>await execAsync\<close>: job number, project, trigger.
  \<^item> \<open>listening\<close> are the project servers that listen, with the project whose routes they
    serve; \<open>open_watchers\<close> the chokidar watchers not yet closed, with the project their
    callbacks close over; \<open>ws_open\<close> the sockets whose \<open>readyState\<close> is \<open>OPEN\<close>;
    \<open>ws_close_handler\<close> the \<open>projectId\<close> captured by the \<open>close\<close> handler of each socket.
  \<^item> \<open>sent\<close> records every \<open>ws.send\<close>, \<open>emitted\<close> every \<open>this.emit\<close> (event name and project
    id), \<open>rebuild_log\<close> every entry into \<open>rebuildProject\<close> (time, project id, trigger).
  \<^item> \<open>now\<close> is \<open>Date.now()\<close> in milliseconds, \<open>process_cwd\<close> is \<open>process.cwd()\<close>.

  Each operation below is one step of the event loop. The \<open>await\<close>s of \<open>setupProject\<close>,
  \<open>stopPreview\<close>, \<open>dispose\<close> and of \<open>updateProjectServer\<close> wait for the object's own
  resource and nothing is taken to run in between; the one wait the state keeps is that of
  \<open>rebuildProject\<close> for the compiler. The global static server and the WebSocket server of
  \<open>initialize\<close> are not part of the state: the static server never listens, and the
  WebSocket server is what delivers the connections.
\<close>

record live_preview =
  previewServers :: "(pid \<times> server_info) list"
  projectWatchers :: "(pid \<times> nat) list"
  connections :: "(pid \<times> wsid list) list"
  rebuildQueue :: "changeInfo list"
  rebuildTimeouts :: "pid \<rightharpoonup> nat"
  staticApp_routes :: "(string \<times> fpath) list"
  timers :: "(nat \<times> time \<times> project) list"
  next_timer :: nat
  inflight :: "(nat \<times> project \<times> string) list"
  next_job :: nat
  listening :: "(port \<times> project) list"
  open_watchers :: "(nat \<times> project) list"
  next_watcher :: nat
  ws_open :: "wsid set"
  ws_close_handler :: "(wsid \<times> string option) list"
  next_ws :: wsid
  sent :: "(wsid \<times> message) list"
  emitted :: "(string \<times> pid) list"
  rebuild_log :: "(time \<times> pid \<times> string) list"
  now :: time
  process_cwd :: fpath

text \<open>The constructor: empty maps, and \<open>rebuildConfig.debounceTime\<close>, which nothing reassigns.\<close>

definition LivePreview_new :: "fpath \<Rightarrow> live_preview" where
  "LivePreview_new dir =
     \<lparr> previewServers = [], projectWatchers = [], connections = [], rebuildQueue = [],
       rebuildTimeouts = Map.empty, staticApp_routes = [], timers = [], next_timer = 0,
       inflight = [], next_job = 0, listening = [], open_watchers = [], next_watcher = 0,
       ws_open = {}, ws_close_handler = [], next_ws = 0, sent = [], emitted = [],
       rebuild_log = [], now = 0, process_cwd = dir \<rparr>"

definition debounceTime :: nat where
  "debounceTime = 300"

section \<open>LivePreview: operations\<close>

definition set_add :: "'a \<Rightarrow> 'a list \<Rightarrow> 'a list" where
  "set_add x xs = (if x \<in> set xs then xs else xs @ [x])"

definition emit :: "string \<Rightarrow> pid \<Rightarrow> live_preview \<Rightarrow> live_preview" where
  "emit name projectId s = s\<lparr>emitted := emitted s @ [(name, projectId)]\<rparr>"

definition ws_send :: "wsid \<Rightarrow> message \<Rightarrow> live_preview \<Rightarrow> live_preview" where
  "ws_send ws msg s = s\<lparr>sent := sent s @ [(ws, msg)]\<rparr>"

text \<open>\<open>broadcastToProject\<close>: the sockets of that project's set that are \<open>OPEN\<close>, in order.\<close>

definition broadcastToProject :: "pid \<Rightarrow> message \<Rightarrow> live_preview \<Rightarrow> live_preview" where
  "broadcastToProject projectId msg s =
     (case map_of (connections s) projectId of
        None \<Rightarrow> s
      | Some conns \<Rightarrow>
          s\<lparr>sent := sent s @ map (\<lambda>ws. (ws, msg)) (filter (\<lambda>ws. ws \<in> ws_open s) conns)\<rparr>)"

text \<open>\<open>broadcastGlobal\<close>: the same over every set in \<open>connections.values()\<close>.\<close>

definition broadcastGlobal :: "message \<Rightarrow> live_preview \<Rightarrow> live_preview" where
  "broadcastGlobal msg s =
     s\<lparr>sent := sent s @
          concat (map (\<lambda>(_, conns). map (\<lambda>ws. (ws, msg)) (filter (\<lambda>ws. ws \<in> ws_open s) conns))
                      (connections s))\<rparr>"

text \<open>
  \<open>startProjectServer\<close>. The port is the answer of \<open>getAvailablePort\<close>, an input from the
  operating system. \<open>listen\<close> on a port that a server of this state holds fails; the
  failure is the error of the call, and nothing has changed. The routes the new server
  answers with are those of \<open>handle_request\<close> below for this project.
\<close>

definition startProjectServer ::
    "project \<Rightarrow> port \<Rightarrow> live_preview \<Rightarrow> string + live_preview" where
  "startProjectServer project prt s =
     (if prt \<in> fst ` set (listening s) then Inl ''EADDRINUSE''
      else Inr (s\<lparr>listening := listening s @ [(prt, project)]\<rparr>))"

definition setupProjectWatcher :: "project \<Rightarrow> live_preview \<Rightarrow> live_preview" where
  "setupProjectWatcher project s =
     s\<lparr>open_watchers := open_watchers s @ [(next_watcher s, project)],
       projectWatchers := AList.update (proj_id project) (next_watcher s) (projectWatchers s),
       next_watcher := Suc (next_watcher s)\<rparr>"

definition registerProjectRoute :: "project \<Rightarrow> string \<Rightarrow> live_preview \<Rightarrow> live_preview" where
  "registerProjectRoute project url s =
     broadcastToProject (proj_id project)
       (project_added (proj_id project) (proj_name project) url ''ready'')
       (s\<lparr>staticApp_routes := staticApp_routes s @ [(url, proj_path project)]\<rparr>)"

text \<open>
  \<open>setupProject\<close>: \<open>Inl\<close> is the error thrown again by the \<open>catch\<close>, \<open>Inr\<close> the state
  with the returned \<open>projectUrl\<close>. Nothing looks for an earlier entry of the same id.
\<close>

definition setupProject ::
    "project \<Rightarrow> port \<Rightarrow> live_preview \<Rightarrow> string + (string \<times> live_preview)" where
  "setupProject project prt s =
     (let projectUrl = ''/projects/'' @ proj_id project in
      case startProjectServer project prt s of
        Inl err \<Rightarrow> Inl err
      | Inr s1 \<Rightarrow>
          let s2 = setupProjectWatcher project s1;
              s3 = s2\<lparr>connections := AList.update (proj_id project) [] (connections s2)\<rparr>;
              s4 = registerProjectRoute project projectUrl s3;
              s5 = s4\<lparr>previewServers :=
                        AList.update (proj_id project)
                          \<lparr>si_project = project, si_url = projectUrl, si_port = prt,
                            si_status = ''ready'', si_startTime = now s4\<rparr>
                          (previewServers s4)\<rparr>
          in Inr (projectUrl, emit ''projectSetup'' (proj_id project) s5))"

definition startPreview ::
    "project \<Rightarrow> port \<Rightarrow> live_preview \<Rightarrow> (string + string) \<times> live_preview" where
  "startPreview project prt s =
     (case setupProject project prt s of
        Inl err \<Rightarrow> (Inl err, emit ''previewError'' (proj_id project) s)
      | Inr (projectUrl, s1) \<Rightarrow>
          (Inr projectUrl,
           emit ''previewStarted'' (proj_id project)
             (broadcastToProject (proj_id project)
                (preview_started (proj_id project) projectUrl (now s1)) s1)))"

definition clearTimeout :: "nat \<Rightarrow> live_preview \<Rightarrow> live_preview" where
  "clearTimeout handle s = s\<lparr>timers := filter (\<lambda>(i, _). i \<noteq> handle) (timers s)\<rparr>"

text \<open>
  \<open>debouncedRebuild\<close>: the pending timer of this project id is cleared and a new one is
  set; its callback is \<open>rebuildProject(project, 'file-change')\<close>. The \<open>changeInfo\<close>
  argument is not used.
\<close>

definition debouncedRebuild :: "project \<Rightarrow> changeInfo \<Rightarrow> live_preview \<Rightarrow> live_preview" where
  "debouncedRebuild project info s =
     (let s1 = (case rebuildTimeouts s (proj_id project) of
                  None \<Rightarrow> s
                | Some handle \<Rightarrow> clearTimeout handle s)
      in s1\<lparr>rebuildTimeouts := (rebuildTimeouts s1)(proj_id project \<mapsto> next_timer s1),
            timers := timers s1 @ [(next_timer s1, now s1 + debounceTime, project)],
            next_timer := Suc (next_timer s1)\<rparr>)"

definition handleFileChange ::
    "project \<Rightarrow> fpath \<Rightarrow> change_kind \<Rightarrow> live_preview \<Rightarrow> live_preview" where
  "handleFileChange project filePath kind s =
     (let relativePath = path_relative (process_cwd s) (proj_path project) filePath;
          info = \<lparr>ci_projectId = proj_id project, ci_filePath = relativePath,
                  ci_absolutePath = filePath, ci_type = kind, ci_timestamp = now s\<rparr>;
          s1 = s\<lparr>rebuildQueue := rebuildQueue s @ [info]\<rparr>;
          s2 = debouncedRebuild project info s1;
          s3 = broadcastToProject (proj_id project) (file_change info) s2
      in emit ''fileChange'' (proj_id project) s3)"

definition updateProjectServer :: "project \<Rightarrow> live_preview \<Rightarrow> live_preview" where
  "updateProjectServer project s =
     (case map_of (previewServers s) (proj_id project) of
        None \<Rightarrow> s
      | Some serverInfo \<Rightarrow> emit ''serverUpdate'' (proj_id project) s)"

text \<open>
  \<open>compileTypeScript\<close>: what it throws, given the outcome of the compiler. Its \<open>catch\<close>
  warns and returns, so it throws nothing on either outcome.
\<close>

definition compileTypeScript :: "exec_result \<Rightarrow> string option" where
  "compileTypeScript r = (case r of exec_ok \<Rightarrow> None | exec_error msg \<Rightarrow> None)"

text \<open>The \<open>catch\<close> block of \<open>rebuildProject\<close>.\<close>

definition rebuild_catch :: "project \<Rightarrow> string \<Rightarrow> live_preview \<Rightarrow> live_preview" where
  "rebuild_catch project err s =
     emit ''rebuildError'' (proj_id project)
       (broadcastToProject (proj_id project) (rebuild_error (proj_id project) err (now s)) s)"

text \<open>The \<open>try\<close> block of \<open>rebuildProject\<close> from \<open>updateProjectServer\<close> on.\<close>

definition rebuild_finish :: "project \<Rightarrow> string \<Rightarrow> live_preview \<Rightarrow> live_preview" where
  "rebuild_finish project trigger s =
     (let s1 = updateProjectServer project s in
      emit ''rebuildComplete'' (proj_id project)
        (broadcastToProject (proj_id project)
           (rebuild_complete (proj_id project) trigger (now s1)) s1))"

text \<open>
  \<open>rebuildProject\<close> up to its first suspension. With \<open>project.config.typescript\<close> the run
  waits for the compiler and joins \<open>inflight\<close>; without, it goes on to the end. The first
  statement of the \<open>try\<close> block throws when the project has no entry in \<open>previewServers\<close>.
\<close>

definition rebuildProject :: "project \<Rightarrow> string \<Rightarrow> live_preview \<Rightarrow> live_preview" where
  "rebuildProject project trigger s =
     (let s0 = s\<lparr>rebuild_log := rebuild_log s @ [(now s, proj_id project, trigger)]\<rparr> in
      case map_of (previewServers s0) (proj_id project) of
        None \<Rightarrow> rebuild_catch project ''Preview server not found for project'' s0
      | Some serverInfo \<Rightarrow>
          if typescript (proj_config project)
          then s0\<lparr>inflight := inflight s0 @ [(next_job s0, project, trigger)],
                  next_job := Suc (next_job s0)\<rparr>
          else rebuild_finish project trigger s0)"

text \<open>The rest of a suspended run, when the compiler of job \<open>job\<close> has ended with \<open>r\<close>.\<close>

definition compile_done :: "nat \<Rightarrow> exec_result \<Rightarrow> live_preview \<Rightarrow> live_preview" where
  "compile_done job r s =
     (case map_of (inflight s) job of
        None \<Rightarrow> s
      | Some (project, trigger) \<Rightarrow>
          let s1 = s\<lparr>inflight := AList.delete job (inflight s)\<rparr> in
          case compileTypeScript r of
            Some err \<Rightarrow> rebuild_catch project err s1
          | None \<Rightarrow> rebuild_finish project trigger s1)"

text \<open>
  \<open>handleWebSocketConnection\<close>. The socket is the new object the WebSocket server hands
  over, open; \<open>requested\<close> is \<open>url.searchParams.get('project')\<close>: absent, or a string. The
  empty string is falsy, so it takes the global branch like an absent parameter.
\<close>

definition truthy :: "string option \<Rightarrow> bool" where
  "truthy v = (case v of None \<Rightarrow> False | Some str \<Rightarrow> str \<noteq> [])"

definition handleWebSocketConnection :: "string option \<Rightarrow> live_preview \<Rightarrow> live_preview" where
  "handleWebSocketConnection requested s =
     (let ws = next_ws s;
          s0 = s\<lparr>next_ws := Suc ws, ws_open := insert ws (ws_open s)\<rparr>;
          s3 = (case requested of
                  None \<Rightarrow> s0
                | Some projectId \<Rightarrow>
                    if projectId = [] then s0
                    else
                      let s1 = (if map_of (connections s0) projectId = None
                                then s0\<lparr>connections := AList.update projectId [] (connections s0)\<rparr>
                                else s0);
                          s2 = (case map_of (connections s1) projectId of
                                  None \<Rightarrow> s1
                                | Some conns \<Rightarrow>
                                    s1\<lparr>connections :=
                                         AList.update projectId (set_add ws conns) (connections s1)\<rparr>)
                      in (case map_of (previewServers s2) projectId of
                            None \<Rightarrow> s2
                          | Some projectServer \<Rightarrow>
                              ws_send ws (project_state projectId (si_url projectServer)
                                            (si_status projectServer) (si_port projectServer)) s2));
          s4 = (if truthy requested then s3
                else ws_send ws
                       (projects_list
                          (map (\<lambda>(k, v). (k, proj_name (si_project v), si_url v, si_status v))
                               (previewServers s3))) s3)
      in s4\<lparr>ws_close_handler := ws_close_handler s4 @ [(ws, requested)]\<rparr>)"

text \<open>
  The \<open>close\<close> event of a socket: it is no longer open, and the handler registered at
  connection removes it from the set its project id has now.
\<close>

definition ws_closed :: "wsid \<Rightarrow> live_preview \<Rightarrow> live_preview" where
  "ws_closed ws s =
     (let s0 = s\<lparr>ws_open := ws_open s - {ws}\<rparr> in
      case map_of (ws_close_handler s0) ws of
        None \<Rightarrow> s0
      | Some requested \<Rightarrow>
          (case requested of
             None \<Rightarrow> s0
           | Some projectId \<Rightarrow>
               if projectId = [] then s0
               else (case map_of (connections s0) projectId of
                       None \<Rightarrow> s0
                     | Some conns \<Rightarrow>
                         s0\<lparr>connections :=
                              AList.update projectId (removeAll ws conns) (connections s0)\<rparr>)))"

text \<open>
  \<open>stopPreview\<close>, block by block as the source has them: the watcher, the sockets, the
  server, the entry, and the global broadcast. \<open>ws.close()\<close> takes a socket out of \<open>OPEN\<close>;
  nothing is sent to it first.
\<close>

definition stopPreview_watcher :: "pid \<Rightarrow> live_preview \<Rightarrow> live_preview" where
  "stopPreview_watcher projectId s =
     (case map_of (projectWatchers s) projectId of
        None \<Rightarrow> s
      | Some watcher \<Rightarrow>
          s\<lparr>open_watchers := filter (\<lambda>(w, _). w \<noteq> watcher) (open_watchers s),
            projectWatchers := AList.delete projectId (projectWatchers s)\<rparr>)"

definition stopPreview_sockets :: "pid \<Rightarrow> live_preview \<Rightarrow> live_preview" where
  "stopPreview_sockets projectId s =
     (case map_of (connections s) projectId of
        None \<Rightarrow> s
      | Some conns \<Rightarrow>
          s\<lparr>ws_open := ws_open s - set conns,
            connections := AList.delete projectId (connections s)\<rparr>)"

definition stopPreview_server :: "pid \<Rightarrow> live_preview \<Rightarrow> live_preview" where
  "stopPreview_server projectId s =
     (case map_of (previewServers s) projectId of
        None \<Rightarrow> s
      | Some serverInfo \<Rightarrow>
          s\<lparr>listening := filter (\<lambda>(p, _). p \<noteq> si_port serverInfo) (listening s)\<rparr>)"

definition stopPreview :: "pid \<Rightarrow> live_preview \<Rightarrow> live_preview" where
  "stopPreview projectId s =
     (let s3 = stopPreview_server projectId
                 (stopPreview_sockets projectId (stopPreview_watcher projectId s));
          s4 = s3\<lparr>previewServers := AList.delete projectId (previewServers s3)\<rparr>;
          s5 = broadcastGlobal (preview_stopped projectId (now s4)) s4
      in emit ''previewStopped'' projectId s5)"

definition handleWatcherError :: "project \<Rightarrow> string \<Rightarrow> live_preview \<Rightarrow> live_preview" where
  "handleWatcherError project err s =
     broadcastToProject (proj_id project) (watcher_error (proj_id project) err (now s)) s"

text \<open>
  What chokidar does with a raw change under a watcher: a closed watcher reports nothing,
  a path for which the \<open>ignored\<close> function answers true reports nothing, any other path
  reaches the handler that \<open>setupProjectWatcher\<close> registered.
\<close>

definition watcher_event ::
    "nat \<Rightarrow> fpath \<Rightarrow> change_kind \<Rightarrow> live_preview \<Rightarrow> live_preview" where
  "watcher_event watcher filePath kind s =
     (case map_of (open_watchers s) watcher of
        None \<Rightarrow> s
      | Some project \<Rightarrow>
          if shouldIgnoreFile filePath then s
          else handleFileChange project filePath kind s)"

definition watcher_failed :: "nat \<Rightarrow> string \<Rightarrow> live_preview \<Rightarrow> live_preview" where
  "watcher_failed watcher err s =
     (case map_of (open_watchers s) watcher of
        None \<Rightarrow> s
      | Some project \<Rightarrow> handleWatcherError project err s)"

text \<open>
  One millisecond passes: the timers that are due run their callback, in the order they
  were set, and are gone.
\<close>

definition fire :: "nat \<times> time \<times> project \<Rightarrow> live_preview \<Rightarrow> live_preview" where
  "fire t s = rebuildProject (snd (snd t)) ''file-change'' s"

definition tick :: "live_preview \<Rightarrow> live_preview" where
  "tick s =
     (let s1 = s\<lparr>now := Suc (now s)\<rparr>;
          due = filter (\<lambda>(_, d, _). d \<le> now s1) (timers s1);
          s2 = s1\<lparr>timers := filter (\<lambda>(_, d, _). \<not> d \<le> now s1) (timers s1)\<rparr>
      in fold fire due s2)"

fun advance :: "nat \<Rightarrow> live_preview \<Rightarrow> live_preview" where
  "advance 0 s = s"
| "advance (Suc n) s = advance n (tick s)"

text \<open>\<open>dispose\<close>: every watcher, socket and server the three maps still hold, then the clears.\<close>

definition dispose :: "live_preview \<Rightarrow> live_preview" where
  "dispose s =
     s\<lparr>open_watchers :=
         filter (\<lambda>(w, _). w \<notin> snd ` set (projectWatchers s)) (open_watchers s),
       ws_open := ws_open s - (\<Union>(_, conns) \<in> set (connections s). set conns),
       listening :=
         filter (\<lambda>(p, _). p \<notin> (si_port \<circ> snd) ` set (previewServers s)) (listening s),
       previewServers := [], projectWatchers := [], connections := [], rebuildQueue := []\<rparr>"

section \<open>The routes of a project server\<close>

text \<open>
  The Express library is outside the repository; what the middleware chain of
  \<open>startProjectServer\<close> needs from it is taken as a parameter: \<open>static_lookup root method url\<close>
  is the file \<open>express.static(root)\<close> serves for a request (none when it passes the request
  on), and \<open>mount_match mountpath url\<close> is the rest of the URL when \<open>app.use(mountpath, ...)\<close>
  applies to it.
\<close>

record express =
  static_lookup :: "fpath \<Rightarrow> string \<Rightarrow> string \<Rightarrow> fpath option"
  mount_match :: "string \<Rightarrow> string \<Rightarrow> string option"

record request =
  req_method :: string
  req_url :: string

datatype response =
    served_static fpath
  | served_dist fpath
  | proxied string
  | sent_index fpath
  | unhandled

text \<open>
  The chain in the order of the \<open>app.use\<close> calls: the project's static files, the \<open>/dist\<close>
  mount when TypeScript is on, the proxy entries in the order of \<open>Object.entries\<close>, and
  the \<open>app.get('*')\<close> route that sends \<open>index.html\<close>.
\<close>

definition dist_lookup :: "express \<Rightarrow> project \<Rightarrow> request \<Rightarrow> fpath option" where
  "dist_lookup ex project req =
     (if typescript (proj_config project)
      then (case mount_match ex ''/dist'' (req_url req) of
              None \<Rightarrow> None
            | Some rest \<Rightarrow>
                static_lookup ex (path_join (proj_path project) ''dist'') (req_method req) rest)
      else None)"

definition handle_request :: "express \<Rightarrow> project \<Rightarrow> request \<Rightarrow> response" where
  "handle_request ex project req =
     (case static_lookup ex (proj_path project) (req_method req) (req_url req) of
        Some file \<Rightarrow> served_static file
      | None \<Rightarrow>
          (case dist_lookup ex project req of
             Some file \<Rightarrow> served_dist file
           | None \<Rightarrow>
               (case find (\<lambda>(mountpath, target). mount_match ex mountpath (req_url req) \<noteq> None)
                          (proxy (proj_config project)) of
                  Some (mountpath, target) \<Rightarrow> proxied target
                | None \<Rightarrow>
                    if req_method req = ''GET'' \<or> req_method req = ''HEAD''
                    then sent_index (path_join (proj_path project) ''index.html'')
                    else unhandled)))"

text \<open>
  A small instance of the library for concrete requests: a file system given as the list
  of its files, \<open>GET\<close> and \<open>HEAD\<close> only, and mounting at whole path segments.
\<close>

definition plain_express :: "fpath list \<Rightarrow> express" where
  "plain_express files =
     \<lparr> static_lookup = (\<lambda>root method url.
          if (method = ''GET'' \<or> method = ''HEAD'') \<and> root @ url \<in> set files
          then Some (root @ url) else None),
       mount_match = (\<lambda>mountpath url.
          if url = mountpath then Some ''/''
          else if prefix (mountpath @ ''/'') url then Some (drop (length mountpath) url)
          else None) \<rparr>"

section \<open>SecuritySandbox: the permission check\<close>










section \<open>Runs\<close>

text \<open>
  What can happen to a \<open>LivePreview\<close> object: the calls the rest of the program makes
  (\<open>startPreview\<close>, \<open>stopPreview\<close>, \<open>rebuildProject\<close>, \<open>dispose\<close>) and the events of the
  runtime (a watcher reports, a compiler ends, a client connects or goes, time passes).
\<close>

datatype action =
    act_startPreview project port
  | act_stopPreview pid
  | act_rebuildProject project string
  | act_watcher_event nat fpath change_kind
  | act_watcher_failed nat string
  | act_compile_done nat exec_result
  | act_connect "string option"
  | act_ws_closed wsid
  | act_tick
  | act_dispose

fun step :: "action \<Rightarrow> live_preview \<Rightarrow> live_preview" where
  "step (act_startPreview project prt) s = snd (startPreview project prt s)"
| "step (act_stopPreview projectId) s = stopPreview projectId s"
| "step (act_rebuildProject project trigger) s = rebuildProject project trigger s"
| "step (act_watcher_event watcher filePath kind) s = watcher_event watcher filePath kind s"
| "step (act_watcher_failed watcher err) s = watcher_failed watcher err s"
| "step (act_compile_done job r) s = compile_done job r s"
| "step (act_connect requested) s = handleWebSocketConnection requested s"
| "step (act_ws_closed ws) s = ws_closed ws s"
| "step act_tick s = tick s"
| "step act_dispose s = dispose s"

definition run :: "action list \<Rightarrow> live_preview \<Rightarrow> live_preview" where
  "run acts s = fold step acts s"

text \<open>A burst of changes for one project: each after a pause of so many milliseconds.\<close>

fun feed :: "project \<Rightarrow> (nat \<times> fpath \<times> change_kind) list \<Rightarrow> live_preview \<Rightarrow> live_preview" where
  "feed project [] s = s"
| "feed project ((pause, filePath, kind) # rest) s =
     feed project rest (handleFileChange project filePath kind (advance pause s))"

section \<open>Observations on a state\<close>

text \<open>
  The pending timers whose callback is for a given project id, the entries into
  \<open>rebuildProject\<close> for a project id, and the link between \<open>rebuildTimeouts\<close> and the
  pending timers: a pending timer is the one its project id's slot holds.
\<close>

definition pending :: "pid \<Rightarrow> live_preview \<Rightarrow> (nat \<times> time \<times> project) list" where
  "pending projectId s = filter (\<lambda>(_, _, q). proj_id q = projectId) (timers s)"

definition rebuilds_of :: "pid \<Rightarrow> live_preview \<Rightarrow> (time \<times> pid \<times> string) list" where
  "rebuilds_of projectId s = filter (\<lambda>(_, p, _). p = projectId) (rebuild_log s)"

definition timers_inv :: "live_preview \<Rightarrow> bool" where
  "timers_inv s = list_all (\<lambda>(i, _, q). rebuildTimeouts s (proj_id q) = Some i) (timers s)"

text \<open>
  The runs of \<open>rebuildProject\<close> for a project id that have started and not ended, and
  the sockets a broadcast to a project id reaches.
\<close>

definition running :: "pid \<Rightarrow> live_preview \<Rightarrow> (nat \<times> project \<times> string) list" where
  "running projectId s = filter (\<lambda>(_, q, _). proj_id q = projectId) (inflight s)"

definition receivers :: "pid \<Rightarrow> live_preview \<Rightarrow> wsid list" where
  "receivers projectId s =
     (case map_of (connections s) projectId of
        None \<Rightarrow> []
      | Some conns \<Rightarrow> filter (\<lambda>ws. ws \<in> ws_open s) conns)"







section \<open>Sample inputs\<close>

text \<open>A project without and one with a compile step and proxy rules, and a started preview.\<close>

definition demo_project :: project where
  "demo_project =
     \<lparr>proj_id = ''p'', proj_name = ''Demo'', proj_path = ''/tmp/p'',
       proj_config = \<lparr>typescript = False, proxy = []\<rparr>\<rparr>"

definition demo_started :: live_preview where
  "demo_started = snd (startPreview demo_project 4001 (LivePreview_new ''/work''))"


text \<open>A burst: three changes within 70 milliseconds, the first at time 0.\<close>

definition demo_burst :: live_preview where
  "demo_burst =
     feed demo_project [(50, ''/tmp/p/b.txt'', modified), (20, ''/tmp/p/a.txt'', modified)]
       (handleFileChange demo_project ''/tmp/p/a.txt'' modified demo_started)"

definition demo_ts :: project where
  "demo_ts =
     \<lparr>proj_id = ''p'', proj_name = ''Demo'', proj_path = ''/tmp/p'',
       proj_config = \<lparr>typescript = True, proxy = [(''/api'', ''http://localhost:5000'')]\<rparr>\<rparr>"

definition ts_started :: live_preview where
  "ts_started = snd (startPreview demo_ts 4001 (LivePreview_new ''/work''))"

definition ts_watched :: live_preview where
  "ts_watched = handleWebSocketConnection (Some ''p'') ts_started"

text \<open>
  A rebuild of the TypeScript project that has waited 40 seconds for its compiler, with
  one socket of the project connected; and a socket connected for a project that has no
  preview.
\<close>

definition ts_compiling :: live_preview where
  "ts_compiling = advance 40000 (rebuildProject demo_ts ''manual'' ts_watched)"

definition lone_socket :: live_preview where
  "lone_socket = handleWebSocketConnection (Some ''p'') (LivePreview_new ''/work'')"

text \<open>
  The started preview with one socket of the project connected; a change reported at
  time 0 and the preview stopped 100 ms later, in the middle of the debounce window.
\<close>

definition demo_watched :: live_preview where
  "demo_watched = handleWebSocketConnection (Some ''p'') demo_started"



text \<open>A project with two proxy rules, the second under the prefix of the first.\<close>

definition demo_proxy :: project where
  "demo_proxy =
     \<lparr>proj_id = ''q'', proj_name = ''Proxy'', proj_path = ''/tmp/q'',
       proj_config =
         \<lparr>typescript = False,
           proxy = [(''/api'', ''http://localhost:5000''), (''/api/v2'', ''http://localhost:6000'')]\<rparr>\<rparr>"






section \<open>Substrings\<close>

lemma includes_iff: "str_includes s pat \<longleftrightarrow> (\<exists>u v. s = u @ pat @ v)"
proof (induction s)
  case Nil
  then show ?case by auto
next
  case (Cons c cs)
  show ?case
  proof
    assume "str_includes (c # cs) pat"
    then consider "prefix pat (c # cs)" | "str_includes cs pat" by auto
    then show "\<exists>u v. c # cs = u @ pat @ v"
    proof cases
      case 1
      then obtain v where "c # cs = pat @ v" by (auto simp: prefix_def)
      then have "c # cs = [] @ pat @ v" by simp
      then show ?thesis by blast
    next
      case 2
      with Cons.IH obtain u v where "cs = u @ pat @ v" by blast
      then have "c # cs = (c # u) @ pat @ v" by simp
      then show ?thesis by blast
    qed
  next
    assume "\<exists>u v. c # cs = u @ pat @ v"
    then obtain u v where uv: "c # cs = u @ pat @ v" by blast
    show "str_includes (c # cs) pat"
    proof (cases u)
      case Nil
      with uv have "prefix pat (c # cs)" by (simp add: prefix_def)
      then show ?thesis by simp
    next
      case (Cons a u')
      with uv have "cs = u' @ pat @ v" by simp
      with Cons.IH have "str_includes cs pat" by blast
      then show ?thesis by simp
    qed
  qed
qed

lemma includes_trans: "str_includes s pat \<Longrightarrow> str_includes pat q \<Longrightarrow> str_includes s q"
proof -
  assume "str_includes s pat" and "str_includes pat q"
  then obtain u v u' v' where "s = u @ pat @ v" and "pat = u' @ q @ v'"
    unfolding includes_iff by blast
  then have "s = (u @ u') @ q @ (v' @ v)" by simp
  then show ?thesis unfolding includes_iff by blast
qed

section \<open>The exclusion test\<close>

lemma shouldIgnoreFile_iff:
  "shouldIgnoreFile filePath \<longleftrightarrow>
     (\<exists>pattern \<in> set watchPatterns_exclude. str_includes (replace_backslashes filePath) pattern)
     \<or> (\<exists>name \<in> set [''node_modules'', ''dist'', ''build'', ''.git'', ''.tmp'', ''.swp''].
           str_includes (replace_backslashes filePath) name)"
  by (simp add: shouldIgnoreFile_def Let_def list_ex_iff)

lemma exclude_patterns_are_globs:
  "pattern \<in> set watchPatterns_exclude \<Longrightarrow> str_includes pattern ''**/''"
  by (auto simp: watchPatterns_exclude_def)

lemma no_glob_no_pattern:
  assumes "\<not> str_includes np ''**/''" and "pattern \<in> set watchPatterns_exclude"
  shows "\<not> str_includes np pattern"
  using assms includes_trans exclude_patterns_are_globs by blast

text \<open>
  Claim C9. The exclusion test of the watcher is a substring test on the normalised
  path. A path that contains one of \<open>node_modules\<close>, \<open>dist\<close>, \<open>build\<close>, \<open>.git\<close>,
  \<open>.tmp\<close>, \<open>.swp\<close> anywhere is ignored, and the watcher reports nothing for it: the
  state is unchanged. The configured exclude patterns are all glob patterns containing
  \<open>**/\<close>; a path that does not contain these three characters literally is matched by
  none of them, so for such a path the six names alone decide. A path that is not ignored
  reaches \<open>handleFileChange\<close> and adds a record to the rebuild queue.
\<close>

theorem shouldIgnoreFile_substring:
  "(name \<in> set [''node_modules'', ''dist'', ''build'', ''.git'', ''.tmp'', ''.swp'']
      \<and> str_includes (replace_backslashes filePath) name
    \<longrightarrow> shouldIgnoreFile filePath \<and> watcher_event watcher filePath kind s = s)
   \<and> (\<not> str_includes (replace_backslashes filePath) ''**/''
    \<longrightarrow> (\<forall>pattern \<in> set watchPatterns_exclude.
           \<not> str_includes (replace_backslashes filePath) pattern)
        \<and> (shouldIgnoreFile filePath \<longleftrightarrow>
             (\<exists>name \<in> set [''node_modules'', ''dist'', ''build'', ''.git'', ''.tmp'', ''.swp''].
                str_includes (replace_backslashes filePath) name)))
   \<and> (\<not> shouldIgnoreFile filePath \<and> map_of (open_watchers s) watcher = Some project
    \<longrightarrow> watcher_event watcher filePath kind s = handleFileChange project filePath kind s
        \<and> rebuildQueue (watcher_event watcher filePath kind s) \<noteq> rebuildQueue s)"
proof (intro conjI impI)
  assume a: "name \<in> set [''node_modules'', ''dist'', ''build'', ''.git'', ''.tmp'', ''.swp'']
      \<and> str_includes (replace_backslashes filePath) name"
  then show ign: "shouldIgnoreFile filePath"
    unfolding shouldIgnoreFile_iff by blast
  then show "watcher_event watcher filePath kind s = s"
    by (simp add: watcher_event_def split: option.splits)
next
  assume g: "\<not> str_includes (replace_backslashes filePath) ''**/''"
  then show n: "\<forall>pattern \<in> set watchPatterns_exclude.
           \<not> str_includes (replace_backslashes filePath) pattern"
    using no_glob_no_pattern by blast
  then show "shouldIgnoreFile filePath \<longleftrightarrow>
             (\<exists>name \<in> set [''node_modules'', ''dist'', ''build'', ''.git'', ''.tmp'', ''.swp''].
                str_includes (replace_backslashes filePath) name)"
    unfolding shouldIgnoreFile_iff by blast
next
  assume a: "\<not> shouldIgnoreFile filePath \<and> map_of (open_watchers s) watcher = Some project"
  then show "watcher_event watcher filePath kind s = handleFileChange project filePath kind s"
    by (simp add: watcher_event_def)
  from a show "rebuildQueue (watcher_event watcher filePath kind s) \<noteq> rebuildQueue s"
    by (simp add: watcher_event_def handleFileChange_def Let_def emit_def broadcastToProject_def debouncedRebuild_def clearTimeout_def split: option.splits)
qed

lemma demo_started_watchers: "map_of (open_watchers demo_started) 0 = Some demo_project"
  by (simp add: demo_started_def startPreview_def setupProject_def startProjectServer_def
      LivePreview_new_def setupProjectWatcher_def registerProjectRoute_def broadcastToProject_def
      emit_def Let_def)

theorem shouldIgnoreFile_substring_witness:
  "shouldIgnoreFile ''src/distance.js'' \<and> shouldIgnoreFile ''rebuild-notes.md''
   \<and> watcher_event 0 ''/tmp/p/src/distance.js'' modified demo_started = demo_started
   \<and> \<not> shouldIgnoreFile ''/tmp/p/app.log'' \<and> \<not> shouldIgnoreFile ''/tmp/p/.env''
   \<and> rebuildQueue (watcher_event 0 ''/tmp/p/.env'' modified demo_started)
        \<noteq> rebuildQueue demo_started"
proof -
  have 1: "shouldIgnoreFile ''src/distance.js''"
    using shouldIgnoreFile_substring [of "''dist''" "''src/distance.js''"]
    by (simp add: replace_backslashes_def)
  have 2: "shouldIgnoreFile ''rebuild-notes.md''"
    using shouldIgnoreFile_substring [of "''build''" "''rebuild-notes.md''"]
    by (simp add: replace_backslashes_def)
  have 3: "watcher_event 0 ''/tmp/p/src/distance.js'' modified demo_started = demo_started"
    using shouldIgnoreFile_substring
      [of "''dist''" "''/tmp/p/src/distance.js''" 0 modified demo_started]
    by (simp add: replace_backslashes_def)
  have 4: "\<not> shouldIgnoreFile ''/tmp/p/app.log''"
    using shouldIgnoreFile_substring [of _ "''/tmp/p/app.log''"]
    by (simp add: replace_backslashes_def)
  have 5: "\<not> shouldIgnoreFile ''/tmp/p/.env''"
    using shouldIgnoreFile_substring [of _ "''/tmp/p/.env''"]
    by (simp add: replace_backslashes_def)
  have 6: "rebuildQueue (watcher_event 0 ''/tmp/p/.env'' modified demo_started)
        \<noteq> rebuildQueue demo_started"
    using shouldIgnoreFile_substring
      [where filePath = "''/tmp/p/.env''" and watcher = 0 and s = demo_started
         and project = demo_project and kind = modified] 5 demo_started_watchers
    by blast
  from 1 2 3 4 5 6 show ?thesis by blast
qed

section \<open>Frames of the operations\<close>

lemmas op_defs =
  emit_def ws_send_def broadcastToProject_def broadcastGlobal_def rebuild_catch_def
  rebuild_finish_def updateProjectServer_def compileTypeScript_def

lemmas stop_defs =
  stopPreview_def stopPreview_watcher_def stopPreview_sockets_def stopPreview_server_def

lemma rebuildProject_frame:
  "rebuildQueue (rebuildProject project trigger s) = rebuildQueue s"
  "timers (rebuildProject project trigger s) = timers s"
  "rebuildTimeouts (rebuildProject project trigger s) = rebuildTimeouts s"
  "now (rebuildProject project trigger s) = now s"
  "connections (rebuildProject project trigger s) = connections s"
  "ws_open (rebuildProject project trigger s) = ws_open s"
  "ws_close_handler (rebuildProject project trigger s) = ws_close_handler s"
  "next_ws (rebuildProject project trigger s) = next_ws s"
  "previewServers (rebuildProject project trigger s) = previewServers s"
  "open_watchers (rebuildProject project trigger s) = open_watchers s"
  "projectWatchers (rebuildProject project trigger s) = projectWatchers s"
  "listening (rebuildProject project trigger s) = listening s"
  by (simp_all add: rebuildProject_def op_defs Let_def split: option.splits)

lemma fold_fire_frame:
  "rebuildQueue (fold fire ts s) = rebuildQueue s"
  "timers (fold fire ts s) = timers s"
  "rebuildTimeouts (fold fire ts s) = rebuildTimeouts s"
  "now (fold fire ts s) = now s"
  "connections (fold fire ts s) = connections s"
  "ws_open (fold fire ts s) = ws_open s"
  "ws_close_handler (fold fire ts s) = ws_close_handler s"
  "next_ws (fold fire ts s) = next_ws s"
  "previewServers (fold fire ts s) = previewServers s"
  "open_watchers (fold fire ts s) = open_watchers s"
  "projectWatchers (fold fire ts s) = projectWatchers s"
  "listening (fold fire ts s) = listening s"
  by (induction ts arbitrary: s; simp add: fire_def rebuildProject_frame)+

lemma tick_frame:
  "rebuildQueue (tick s) = rebuildQueue s"
  "rebuildTimeouts (tick s) = rebuildTimeouts s"
  "now (tick s) = Suc (now s)"
  "connections (tick s) = connections s"
  "ws_open (tick s) = ws_open s"
  "ws_close_handler (tick s) = ws_close_handler s"
  "next_ws (tick s) = next_ws s"
  "previewServers (tick s) = previewServers s"
  "open_watchers (tick s) = open_watchers s"
  "projectWatchers (tick s) = projectWatchers s"
  "listening (tick s) = listening s"
  "timers (tick s) = filter (\<lambda>(_, d, _). \<not> d \<le> Suc (now s)) (timers s)"
  by (simp_all add: tick_def Let_def fold_fire_frame)

lemma advance_frame:
  "rebuildQueue (advance n s) = rebuildQueue s"
  "rebuildTimeouts (advance n s) = rebuildTimeouts s"
  "now (advance n s) = now s + n"
  "connections (advance n s) = connections s"
  "ws_open (advance n s) = ws_open s"
  "ws_close_handler (advance n s) = ws_close_handler s"
  "next_ws (advance n s) = next_ws s"
  "previewServers (advance n s) = previewServers s"
  "open_watchers (advance n s) = open_watchers s"
  "projectWatchers (advance n s) = projectWatchers s"
  "listening (advance n s) = listening s"
  by (induction n arbitrary: s; simp add: tick_frame)+

lemma handleFileChange_queue:
  "rebuildQueue (handleFileChange project filePath kind s) =
     rebuildQueue s @
       [\<lparr>ci_projectId = proj_id project,
         ci_filePath = path_relative (process_cwd s) (proj_path project) filePath,
         ci_absolutePath = filePath, ci_type = kind, ci_timestamp = now s\<rparr>]"
  by (simp add: handleFileChange_def debouncedRebuild_def clearTimeout_def op_defs Let_def
      split: option.splits)














section \<open>Timers and the debounce window\<close>

lemma rebuildProject_log:
  "rebuild_log (rebuildProject project trigger s) =
     rebuild_log s @ [(now s, proj_id project, trigger)]"
  by (simp add: rebuildProject_def op_defs Let_def split: option.splits)

lemma fold_fire_log:
  "rebuild_log (fold fire ts s) =
     rebuild_log s @ map (\<lambda>(_, _, q). (now s, proj_id q, ''file-change'')) ts"
proof (induction ts arbitrary: s)
  case Nil
  then show ?case by simp
next
  case (Cons t ts)
  then show ?case
    by (cases t) (simp add: fire_def rebuildProject_log rebuildProject_frame)
qed

lemma tick_log:
  "rebuild_log (tick s) =
     rebuild_log s @
       map (\<lambda>(_, _, q). (Suc (now s), proj_id q, ''file-change''))
           (filter (\<lambda>(_, d, _). d \<le> Suc (now s)) (timers s))"
  by (simp add: tick_def Let_def fold_fire_log)

lemma filter_fired:
  "filter (\<lambda>(_, p, _). p = projectId) (map (\<lambda>(_, _, q). (t, proj_id q, tr)) ts) =
     map (\<lambda>(_, _, q). (t, proj_id q, tr)) (filter (\<lambda>(_, _, q). proj_id q = projectId) ts)"
  by (induction ts) auto

lemma filter_swap: "filter P (filter Q xs) = filter Q (filter P xs)"
  by (induction xs) auto

lemma tick_rebuilds_of:
  "rebuilds_of projectId (tick s) =
     rebuilds_of projectId s @
       map (\<lambda>(_, _, q). (Suc (now s), proj_id q, ''file-change''))
           (filter (\<lambda>(_, d, _). d \<le> Suc (now s)) (pending projectId s))"
proof -
  have "filter (\<lambda>(_, p, _). p = projectId) (rebuild_log (tick s)) =
          filter (\<lambda>(_, p, _). p = projectId) (rebuild_log s) @
          filter (\<lambda>(_, p, _). p = projectId)
            (map (\<lambda>(_, _, q). (Suc (now s), proj_id q, ''file-change''))
               (filter (\<lambda>(_, d, _). d \<le> Suc (now s)) (timers s)))"
    by (simp only: tick_log filter_append)
  also have "filter (\<lambda>(_, p, _). p = projectId)
            (map (\<lambda>(_, _, q). (Suc (now s), proj_id q, ''file-change''))
               (filter (\<lambda>(_, d, _). d \<le> Suc (now s)) (timers s))) =
          map (\<lambda>(_, _, q). (Suc (now s), proj_id q, ''file-change''))
            (filter (\<lambda>(_, _, q). proj_id q = projectId)
               (filter (\<lambda>(_, d, _). d \<le> Suc (now s)) (timers s)))"
    by (rule filter_fired)
  also have "filter (\<lambda>(_, _, q). proj_id q = projectId)
               (filter (\<lambda>(_, d, _). d \<le> Suc (now s)) (timers s)) =
             filter (\<lambda>(_, d, _). d \<le> Suc (now s))
               (filter (\<lambda>(_, _, q). proj_id q = projectId) (timers s))"
    by (rule filter_swap)
  finally show ?thesis
    unfolding rebuilds_of_def pending_def .
qed

lemma tick_pending:
  "pending projectId (tick s) = filter (\<lambda>(_, d, _). \<not> d \<le> Suc (now s)) (pending projectId s)"
  unfolding pending_def tick_frame by (rule filter_swap)

lemma advance_none_pending:
  "pending projectId s = [] \<Longrightarrow>
     pending projectId (advance n s) = [] \<and>
     rebuilds_of projectId (advance n s) = rebuilds_of projectId s"
  by (induction n arbitrary: s) (simp_all add: tick_pending tick_rebuilds_of)

lemma advance_one_pending:
  assumes "pending projectId s = [(i, d, q)]" and "now s < d"
  shows "now s + n < d \<Longrightarrow>
           pending projectId (advance n s) = [(i, d, q)] \<and>
           rebuilds_of projectId (advance n s) = rebuilds_of projectId s"
    and "d \<le> now s + n \<Longrightarrow>
           pending projectId (advance n s) = [] \<and>
           rebuilds_of projectId (advance n s) =
             rebuilds_of projectId s @ [(d, proj_id q, ''file-change'')]"
  using assms
proof (induction n arbitrary: s)
  case 0
  { case 1 then show ?case by simp }
  { case 2 then show ?case by simp }
next
  case (Suc n)
  { case 1
    then have p: "pending projectId (tick s) = [(i, d, q)]"
      and r: "rebuilds_of projectId (tick s) = rebuilds_of projectId s"
      and t: "now (tick s) < d" "now (tick s) + n < d"
      by (simp_all add: tick_pending tick_rebuilds_of tick_frame)
    from Suc.IH(1) [OF t(2) p t(1)] r show ?case by simp }
  { case 2
    show ?case
    proof (cases "d \<le> Suc (now s)")
      case True
      with 2 have d: "d = Suc (now s)" by simp
      with 2 have p: "pending projectId (tick s) = []"
        and r: "rebuilds_of projectId (tick s) =
                  rebuilds_of projectId s @ [(d, proj_id q, ''file-change'')]"
        by (simp_all add: tick_pending tick_rebuilds_of)
      from advance_none_pending [OF p, of n] r show ?thesis by simp
    next
      case False
      with 2 have p: "pending projectId (tick s) = [(i, d, q)]"
        and r: "rebuilds_of projectId (tick s) = rebuilds_of projectId s"
        and t: "now (tick s) < d" "d \<le> now (tick s) + n"
        by (simp_all add: tick_pending tick_rebuilds_of tick_frame)
      from Suc.IH(2) [OF t(2) p t(1)] r show ?thesis by simp
    qed }
qed

lemma timers_frame:
  "timers (snd (startPreview project prt s)) = timers s"
  "rebuildTimeouts (snd (startPreview project prt s)) = rebuildTimeouts s"
  "timers (stopPreview projectId s) = timers s"
  "rebuildTimeouts (stopPreview projectId s) = rebuildTimeouts s"
  "timers (compile_done job r s) = timers s"
  "rebuildTimeouts (compile_done job r s) = rebuildTimeouts s"
  "timers (handleWebSocketConnection requested s) = timers s"
  "rebuildTimeouts (handleWebSocketConnection requested s) = rebuildTimeouts s"
  "timers (ws_closed ws s) = timers s"
  "rebuildTimeouts (ws_closed ws s) = rebuildTimeouts s"
  "timers (watcher_failed watcher err s) = timers s"
  "rebuildTimeouts (watcher_failed watcher err s) = rebuildTimeouts s"
  "timers (dispose s) = timers s"
  "rebuildTimeouts (dispose s) = rebuildTimeouts s"
  by (simp_all add: startPreview_def setupProject_def startProjectServer_def
      setupProjectWatcher_def registerProjectRoute_def stop_defs compile_done_def
      handleWebSocketConnection_def ws_closed_def watcher_failed_def handleWatcherError_def
      dispose_def op_defs Let_def
      split: sum.splits option.splits prod.splits)

lemma handleFileChange_timers:
  "timers (handleFileChange project filePath kind s) =
     (case rebuildTimeouts s (proj_id project) of
        None \<Rightarrow> timers s
      | Some handle \<Rightarrow> filter (\<lambda>(i, _). i \<noteq> handle) (timers s))
     @ [(next_timer s, now s + debounceTime, project)]"
  "rebuildTimeouts (handleFileChange project filePath kind s) =
     (rebuildTimeouts s)(proj_id project \<mapsto> next_timer s)"
  "rebuild_log (handleFileChange project filePath kind s) = rebuild_log s"
  "now (handleFileChange project filePath kind s) = now s"
  by (simp_all add: handleFileChange_def debouncedRebuild_def clearTimeout_def op_defs Let_def
      split: option.splits)

lemma timers_inv_pending:
  "timers_inv s \<longleftrightarrow>
     (\<forall>i d q. (i, d, q) \<in> set (timers s) \<longrightarrow> rebuildTimeouts s (proj_id q) = Some i)"
  by (auto simp: timers_inv_def list_all_iff)

lemma timers_invD:
  "timers_inv s \<Longrightarrow> (i, d, q) \<in> set (timers s) \<Longrightarrow> rebuildTimeouts s (proj_id q) = Some i"
  unfolding timers_inv_pending by blast

lemma cleared_no_pending:
  assumes "timers_inv s"
    and "(i, d, q) \<in> set (case rebuildTimeouts s (proj_id project) of
                             None \<Rightarrow> timers s
                           | Some handle \<Rightarrow> filter (\<lambda>(i, _). i \<noteq> handle) (timers s))"
  shows "(i, d, q) \<in> set (timers s)" and "proj_id q \<noteq> proj_id project"
proof -
  from assms(2) show m: "(i, d, q) \<in> set (timers s)"
    by (auto split: option.splits)
  from timers_invD [OF assms(1) m] assms(2) show "proj_id q \<noteq> proj_id project"
    by (auto split: option.splits)
qed

lemma handleFileChange_inv:
  assumes "timers_inv s"
  shows "timers_inv (handleFileChange project filePath kind s)"
  unfolding timers_inv_pending handleFileChange_timers
proof (intro allI impI)
  fix i d q
  assume "(i, d, q) \<in> set ((case rebuildTimeouts s (proj_id project) of
             None \<Rightarrow> timers s
           | Some handle \<Rightarrow> filter (\<lambda>(i, _). i \<noteq> handle) (timers s))
          @ [(next_timer s, now s + debounceTime, project)])"
  then consider "(i, d, q) = (next_timer s, now s + debounceTime, project)"
    | "(i, d, q) \<in> set (case rebuildTimeouts s (proj_id project) of
             None \<Rightarrow> timers s
           | Some handle \<Rightarrow> filter (\<lambda>(i, _). i \<noteq> handle) (timers s))"
    by auto
  then show "((rebuildTimeouts s)(proj_id project \<mapsto> next_timer s)) (proj_id q) = Some i"
  proof cases
    case 1
    then show ?thesis by simp
  next
    case 2
    from cleared_no_pending [OF assms 2] timers_invD [OF assms]
    show ?thesis by simp
  qed
qed

lemma handleFileChange_pending:
  assumes "timers_inv s"
  shows "pending (proj_id project) (handleFileChange project filePath kind s) =
           [(next_timer s, now s + debounceTime, project)]"
proof -
  have "filter (\<lambda>(_, _, q). proj_id q = proj_id project)
          (case rebuildTimeouts s (proj_id project) of
             None \<Rightarrow> timers s
           | Some handle \<Rightarrow> filter (\<lambda>(i, _). i \<noteq> handle) (timers s)) = []"
    unfolding filter_empty_conv using cleared_no_pending(2) [OF assms] by fastforce
  then show ?thesis
    by (simp add: pending_def handleFileChange_timers)
qed

lemma tick_inv: "timers_inv s \<Longrightarrow> timers_inv (tick s)"
  unfolding timers_inv_pending tick_frame by auto

lemma advance_inv: "timers_inv s \<Longrightarrow> timers_inv (advance n s)"
  by (induction n arbitrary: s) (simp_all add: tick_inv)

lemma step_inv: "timers_inv s \<Longrightarrow> timers_inv (step a s)"
  by (cases a)
     (simp_all add: timers_inv_pending timers_frame rebuildProject_frame watcher_event_def
        handleFileChange_inv [unfolded timers_inv_pending] tick_inv [unfolded timers_inv_pending]
        split: option.splits)

lemma run_inv: "timers_inv s \<Longrightarrow> timers_inv (run acts s)"
  unfolding run_def by (induction acts arbitrary: s) (simp_all add: step_inv)

lemma reachable_inv: "timers_inv (run acts (LivePreview_new dir))"
  by (rule run_inv) (simp add: timers_inv_def LivePreview_new_def)

lemma handleFileChange_rebuilds_of:
  "rebuilds_of projectId (handleFileChange project filePath kind s) = rebuilds_of projectId s"
  by (simp add: rebuilds_of_def handleFileChange_timers)

lemma feed_burst:
  assumes "timers_inv s"
    and "pending (proj_id project) s = [(i, now s + debounceTime, project)]"
    and "\<forall>(pause, filePath, kind) \<in> set rest. pause < debounceTime"
  shows "timers_inv (feed project rest s)
     \<and> (\<exists>j. pending (proj_id project) (feed project rest s) =
              [(j, now (feed project rest s) + debounceTime, project)])
     \<and> rebuilds_of (proj_id project) (feed project rest s) = rebuilds_of (proj_id project) s
     \<and> map ci_absolutePath (rebuildQueue (feed project rest s)) =
         map ci_absolutePath (rebuildQueue s) @ map (fst \<circ> snd) rest"
  using assms
proof (induction rest arbitrary: s i)
  case Nil
  then show ?case by simp
next
  case (Cons e rest)
  obtain pause filePath kind where e: "e = (pause, filePath, kind)"
    by (cases e) auto
  let ?a = "advance pause s"
  let ?h = "handleFileChange project filePath kind ?a"
  from Cons.prems(3) e have short: "pause < debounceTime"
    and rest: "\<forall>(pause, filePath, kind) \<in> set rest. pause < debounceTime"
    by auto
  have "now s < now s + debounceTime" by (simp add: debounceTime_def)
  moreover from short have "now s + pause < now s + debounceTime" by simp
  ultimately have a: "pending (proj_id project) ?a = [(i, now s + debounceTime, project)]"
      "rebuilds_of (proj_id project) ?a = rebuilds_of (proj_id project) s"
    using advance_one_pending(1) [OF Cons.prems(2)] by blast+
  have inv_a: "timers_inv ?a"
    using Cons.prems(1) by (rule advance_inv)
  then have inv_h: "timers_inv ?h"
    by (rule handleFileChange_inv)
  have pend_h: "pending (proj_id project) ?h = [(next_timer ?a, now ?h + debounceTime, project)]"
    using handleFileChange_pending [OF inv_a] by (simp add: handleFileChange_timers)
  have log_h: "rebuilds_of (proj_id project) ?h = rebuilds_of (proj_id project) s"
    using a(2) by (simp add: handleFileChange_rebuilds_of)
  have queue_h: "map ci_absolutePath (rebuildQueue ?h) =
      map ci_absolutePath (rebuildQueue s) @ [filePath]"
    by (simp add: handleFileChange_queue advance_frame)
  from Cons.IH [OF inv_h pend_h rest] log_h queue_h e
  show ?case by simp
qed

lemma burst_window:
  fixes project :: project and filePath :: fpath and kind :: change_kind
  assumes "timers_inv s0"
    and "\<forall>(pause, filePath, kind) \<in> set rest. pause < debounceTime"
  defines "s2 \<equiv> feed project rest (handleFileChange project filePath kind s0)"
  shows "rebuilds_of (proj_id project) s2 = rebuilds_of (proj_id project) s0"
    and "n < debounceTime \<Longrightarrow>
           rebuilds_of (proj_id project) (advance n s2) = rebuilds_of (proj_id project) s0"
    and "debounceTime \<le> n \<Longrightarrow>
           rebuilds_of (proj_id project) (advance n s2) =
             rebuilds_of (proj_id project) s0 @
               [(now s2 + debounceTime, proj_id project, ''file-change'')]"
    and "debounceTime \<le> n \<Longrightarrow> pending (proj_id project) (advance n s2) = []"
    and "map ci_absolutePath (rebuildQueue (advance n s2)) =
           map ci_absolutePath (rebuildQueue s0) @ filePath # map (fst \<circ> snd) rest"
proof -
  let ?s1 = "handleFileChange project filePath kind s0"
  have inv1: "timers_inv ?s1" using assms(1) by (rule handleFileChange_inv)
  have pend1: "pending (proj_id project) ?s1 = [(next_timer s0, now ?s1 + debounceTime, project)]"
    using handleFileChange_pending [OF assms(1)] by (simp add: handleFileChange_timers)
  from feed_burst [OF inv1 pend1 assms(2)]
  obtain j where pend2: "pending (proj_id project) s2 = [(j, now s2 + debounceTime, project)]"
    and log2: "rebuilds_of (proj_id project) s2 = rebuilds_of (proj_id project) s0"
    and queue2: "map ci_absolutePath (rebuildQueue s2) =
        map ci_absolutePath (rebuildQueue s0) @ filePath # map (fst \<circ> snd) rest"
    unfolding s2_def by (auto simp: handleFileChange_rebuilds_of handleFileChange_queue)
  have due: "now s2 < now s2 + debounceTime" by (simp add: debounceTime_def)
  from log2 show "rebuilds_of (proj_id project) s2 = rebuilds_of (proj_id project) s0" .
  show "rebuilds_of (proj_id project) (advance n s2) = rebuilds_of (proj_id project) s0"
    if "n < debounceTime"
    using advance_one_pending(1) [OF pend2 due, of n] that log2 by simp
  show "rebuilds_of (proj_id project) (advance n s2) =
        rebuilds_of (proj_id project) s0 @ [(now s2 + debounceTime, proj_id project, ''file-change'')]"
    if "debounceTime \<le> n"
    using advance_one_pending(2) [OF pend2 due, of n] that log2 by simp
  show "pending (proj_id project) (advance n s2) = []" if "debounceTime \<le> n"
    using advance_one_pending(2) [OF pend2 due, of n] that by simp
  from queue2 show "map ci_absolutePath (rebuildQueue (advance n s2)) =
           map ci_absolutePath (rebuildQueue s0) @ filePath # map (fst \<circ> snd) rest"
    by (simp add: advance_frame)
qed

text \<open>
  Claim C1, as the code has it. In every reachable state, for a burst of changes of one
  project that are not ignored, each less than the debounce time of 300 ms after the one
  before: no rebuild of the project starts during the burst, none before 300 ms have
  passed since the last change, and exactly one has started once they have, as
  \<open>rebuildProject(project, 'file-change')\<close>; then no timer of the project is pending. The
  call carries the project and the trigger only, no batch of paths, and the rebuild queue
  still holds the records of the whole burst afterwards.
\<close>

theorem debounce_fires_once:
  assumes "\<forall>(pause, filePath, kind) \<in> set rest. pause < debounceTime"
  shows "let s0 = run acts (LivePreview_new dir);
             s2 = feed project rest (handleFileChange project filePath kind s0);
             before = rebuilds_of (proj_id project) s0
         in rebuilds_of (proj_id project) s2 = before
          \<and> (\<forall>n < debounceTime. rebuilds_of (proj_id project) (advance n s2) = before)
          \<and> (\<forall>n \<ge> debounceTime.
                rebuilds_of (proj_id project) (advance n s2) =
                  before @ [(now s2 + debounceTime, proj_id project, ''file-change'')]
                \<and> pending (proj_id project) (advance n s2) = []
                \<and> map ci_absolutePath (rebuildQueue (advance n s2)) =
                    map ci_absolutePath (rebuildQueue s0) @ filePath # map (fst \<circ> snd) rest)"
proof -
  note window = burst_window [OF reachable_inv [of acts dir] assms,
      where project = project and filePath = filePath and kind = kind]
  show ?thesis
    unfolding Let_def
  proof (intro conjI allI impI)
    show "rebuilds_of (proj_id project)
            (feed project rest (handleFileChange project filePath kind (run acts (LivePreview_new dir))))
          = rebuilds_of (proj_id project) (run acts (LivePreview_new dir))"
      by (rule window(1))
  qed (simp_all add: window)
qed

lemma demo_started_run:
  "demo_started = run [act_startPreview demo_project 4001] (LivePreview_new ''/work'')"
  by (simp add: demo_started_def run_def)

lemma demo_started_fields:
  "now demo_started = 0" "rebuild_log demo_started = []" "rebuildQueue demo_started = []"
  by (simp_all add: demo_started_def startPreview_def setupProject_def startProjectServer_def
      setupProjectWatcher_def registerProjectRoute_def op_defs Let_def LivePreview_new_def)

lemma demo_burst_now: "now demo_burst = 70"
  by (simp add: demo_burst_def handleFileChange_timers advance_frame demo_started_fields)

theorem debounce_fires_once_witness:
  "50 < debounceTime \<and> 20 < debounceTime
   \<and> rebuilds_of ''p'' demo_burst = []
   \<and> rebuilds_of ''p'' (advance 299 demo_burst) = []
   \<and> rebuilds_of ''p'' (advance 300 demo_burst) = [(370, ''p'', ''file-change'')]
   \<and> map ci_absolutePath (rebuildQueue (advance 300 demo_burst)) =
        [''/tmp/p/a.txt'', ''/tmp/p/b.txt'', ''/tmp/p/a.txt'']"
proof -
  have short: "\<forall>(pause, filePath, kind) \<in> set [(50, ''/tmp/p/b.txt'', modified), (20 :: nat, ''/tmp/p/a.txt'', modified)].
      pause < debounceTime"
    by (simp add: debounceTime_def)
  have id: "proj_id demo_project = ''p''"
    by (simp add: demo_project_def)
  have none: "rebuilds_of ''p'' demo_started = []"
    by (simp add: rebuilds_of_def demo_started_fields)
  note fact = debounce_fires_once [OF short, where project = demo_project
      and filePath = "''/tmp/p/a.txt''" and kind = modified
      and acts = "[act_startPreview demo_project 4001]" and dir = "''/work''",
      unfolded Let_def, folded demo_started_run, folded demo_burst_def,
      unfolded id none demo_burst_now]
  from fact have 1: "rebuilds_of ''p'' demo_burst = []" by simp
  from fact have "299 < debounceTime \<longrightarrow> rebuilds_of ''p'' (advance 299 demo_burst) = []"
    by blast
  then have 2: "rebuilds_of ''p'' (advance 299 demo_burst) = []"
    by (simp add: debounceTime_def)
  from fact have "debounceTime \<le> 300 \<longrightarrow>
      rebuilds_of ''p'' (advance 300 demo_burst) = [] @ [(70 + debounceTime, ''p'', ''file-change'')]
      \<and> map ci_absolutePath (rebuildQueue (advance 300 demo_burst)) =
          map ci_absolutePath (rebuildQueue demo_started) @
            ''/tmp/p/a.txt'' # map (fst \<circ> snd) [(50, ''/tmp/p/b.txt'', modified), (20 :: nat, ''/tmp/p/a.txt'', modified)]"
    by blast
  then have 3: "rebuilds_of ''p'' (advance 300 demo_burst) = [(370, ''p'', ''file-change'')]"
    and 4: "map ci_absolutePath (rebuildQueue (advance 300 demo_burst)) =
        [''/tmp/p/a.txt'', ''/tmp/p/b.txt'', ''/tmp/p/a.txt'']"
    by (simp_all add: debounceTime_def demo_started_fields)
  from 1 2 3 4 show ?thesis by (simp add: debounceTime_def)
qed

lemma demo_started_inv: "timers_inv demo_started"
  unfolding demo_started_run by (rule reachable_inv)

text \<open>
  Claim C1 as stated fails: after the burst and the one rebuild it causes, the call has
  received the project id and the trigger and nothing else, and the records of the burst
  are still in the queue.
\<close>

theorem rebuild_batch_counterexample:
  "rebuilds_of ''p'' (advance 300 demo_burst) = [(370, ''p'', ''file-change'')]
   \<and> map ci_absolutePath (rebuildQueue (advance 300 demo_burst)) =
       [''/tmp/p/a.txt'', ''/tmp/p/b.txt'', ''/tmp/p/a.txt'']"
proof -
  have short: "\<forall>(pause, filePath, kind) \<in> set [(50, ''/tmp/p/b.txt'', modified), (20 :: nat, ''/tmp/p/a.txt'', modified)].
      pause < debounceTime"
    by (simp add: debounceTime_def)
  have late: "debounceTime \<le> 300" by (simp add: debounceTime_def)
  have id: "proj_id demo_project = ''p''"
    by (simp add: demo_project_def)
  have none: "rebuilds_of ''p'' demo_started = []"
    by (simp add: rebuilds_of_def demo_started_fields)
  from burst_window(3) [OF demo_started_inv short late, where project = demo_project
      and filePath = "''/tmp/p/a.txt''" and kind = modified, folded demo_burst_def]
  have "rebuilds_of ''p'' (advance 300 demo_burst) = [(370, ''p'', ''file-change'')]"
    by (simp add: id none demo_burst_now debounceTime_def)
  moreover
  from burst_window(5) [OF demo_started_inv short, where project = demo_project
      and filePath = "''/tmp/p/a.txt''" and kind = modified and n = 300, folded demo_burst_def]
  have "map ci_absolutePath (rebuildQueue (advance 300 demo_burst)) =
       [''/tmp/p/a.txt'', ''/tmp/p/b.txt'', ''/tmp/p/a.txt'']"
    by (simp add: demo_started_fields)
  ultimately show ?thesis by blast
qed

section \<open>Rebuild runs\<close>

lemma rebuildProject_inflight:
  "inflight (rebuildProject project trigger s) =
     (if map_of (previewServers s) (proj_id project) \<noteq> None \<and> typescript (proj_config project)
      then inflight s @ [(next_job s, project, trigger)] else inflight s)"
  by (simp add: rebuildProject_def op_defs Let_def split: option.splits)

lemma rebuildProject_running:
  "running (proj_id project) (rebuildProject project trigger s) =
     (if map_of (previewServers s) (proj_id project) \<noteq> None \<and> typescript (proj_config project)
      then running (proj_id project) s @ [(next_job s, project, trigger)]
      else running (proj_id project) s)"
  by (simp add: running_def rebuildProject_inflight)

lemma triggers_servers:
  "previewServers (fold (rebuildProject project) triggers s) = previewServers s"
  by (induction triggers arbitrary: s) (simp_all add: rebuildProject_frame)

lemma triggers_running:
  assumes "map_of (previewServers s) (proj_id project) \<noteq> None"
    and "typescript (proj_config project)"
  shows "length (running (proj_id project) (fold (rebuildProject project) triggers s)) =
           length (running (proj_id project) s) + length triggers"
  using assms(1)
proof (induction triggers arbitrary: s)
  case Nil
  then show ?case by simp
next
  case (Cons t triggers)
  have "map_of (previewServers (rebuildProject project t s)) (proj_id project) \<noteq> None"
    using Cons.prems by (simp add: rebuildProject_frame)
  from Cons.IH [OF this] Cons.prems assms(2) show ?case
    by (simp add: rebuildProject_running)
qed


lemma rebuild_finish_sent:
  "sent (rebuild_finish project trigger s) =
     sent s @ map (\<lambda>ws. (ws, rebuild_complete (proj_id project) trigger (now s)))
                  (receivers (proj_id project) s)"
  by (simp add: rebuild_finish_def updateProjectServer_def emit_def broadcastToProject_def
      receivers_def Let_def split: option.splits)

lemma rebuild_catch_sent:
  "sent (rebuild_catch project err s) =
     sent s @ map (\<lambda>ws. (ws, rebuild_error (proj_id project) err (now s)))
                  (receivers (proj_id project) s)"
  by (simp add: rebuild_catch_def emit_def broadcastToProject_def receivers_def
      split: option.splits)

lemma rebuildProject_sent:
  "sent (rebuildProject project trigger s) =
     (case map_of (previewServers s) (proj_id project) of
        None \<Rightarrow>
          sent s @ map (\<lambda>ws. (ws, rebuild_error (proj_id project)
                                   ''Preview server not found for project'' (now s)))
                       (receivers (proj_id project) s)
      | Some info \<Rightarrow>
          if typescript (proj_config project) then sent s
          else sent s @ map (\<lambda>ws. (ws, rebuild_complete (proj_id project) trigger (now s)))
                            (receivers (proj_id project) s))"
  by (simp add: rebuildProject_def rebuild_finish_sent rebuild_catch_sent receivers_def Let_def
      split: option.splits)

lemma compileTypeScript_swallows: "compileTypeScript r = None"
  by (cases r) (simp_all add: compileTypeScript_def)

lemma compile_done_any_result: "compile_done job r s = compile_done job exec_ok s"
  by (simp add: compile_done_def compileTypeScript_swallows Let_def
      split: option.splits prod.splits)

lemma compile_done_sent:
  assumes "map_of (inflight s) job = Some (project, trigger)"
  shows "sent (compile_done job r s) =
     sent s @ map (\<lambda>ws. (ws, rebuild_complete (proj_id project) trigger (now s)))
                  (receivers (proj_id project) s)"
  using assms
  by (simp add: compile_done_def compileTypeScript_swallows rebuild_finish_sent receivers_def
      Let_def split: option.splits)

lemma compile_done_frame:
  "previewServers (compile_done job r s) = previewServers s"
  "next_job (compile_done job r s) = next_job s"
  "now (compile_done job r s) = now s"
  "map_of (inflight s) job = Some (project, trigger) \<Longrightarrow>
     inflight (compile_done job r s) = AList.delete job (inflight s)"
  by (simp_all add: compile_done_def op_defs Let_def split: option.splits prod.splits)

lemma tick_idle: "timers s = [] \<Longrightarrow> tick s = s\<lparr>now := Suc (now s)\<rparr>"
  by (simp add: tick_def Let_def)

lemma advance_idle: "timers s = [] \<Longrightarrow> advance n s = s\<lparr>now := now s + n\<rparr>"
  by (induction n arbitrary: s) (simp_all add: tick_idle)

lemmas start_defs =
  startPreview_def setupProject_def startProjectServer_def setupProjectWatcher_def
  registerProjectRoute_def LivePreview_new_def

lemma ts_started_fields:
  "map_of (previewServers ts_started) ''p'' =
     Some \<lparr>si_project = demo_ts, si_url = ''/projects/p'', si_port = 4001,
            si_status = ''ready'', si_startTime = 0\<rparr>"
  "inflight ts_started = []" "next_job ts_started = 0" "timers ts_started = []"
  "now ts_started = 0" "sent ts_started = []" "connections ts_started = [(''p'', [])]"
  "ws_open ts_started = {}" "next_ws ts_started = 0"
  by (simp_all add: ts_started_def start_defs op_defs Let_def demo_ts_def)

lemma demo_ts_fields: "proj_id demo_ts = ''p''" "typescript (proj_config demo_ts)"
  by (simp_all add: demo_ts_def)

text \<open>
  Claim C2, as the code has it. Nothing in \<open>rebuildProject\<close> looks at the runs that are
  under way. For a project with a preview server and a compile step every trigger starts
  a run of its own at once, next to those already running: after any number of triggers
  that many more runs are under way. Without a compile step a run ends within the call
  and leaves none under way.
\<close>

theorem triggers_run_concurrently:
  "(map_of (previewServers s) (proj_id project) \<noteq> None \<and> typescript (proj_config project) \<longrightarrow>
      running (proj_id project) (rebuildProject project trigger s) =
        running (proj_id project) s @ [(next_job s, project, trigger)]
      \<and> length (running (proj_id project) (fold (rebuildProject project) triggers s)) =
          length (running (proj_id project) s) + length triggers)
   \<and> (\<not> typescript (proj_config project) \<longrightarrow>
        inflight (rebuildProject project trigger s) = inflight s)"
  by (simp add: rebuildProject_running rebuildProject_inflight triggers_running)

theorem triggers_run_concurrently_witness:
  "map_of (previewServers ts_started) (proj_id demo_ts) \<noteq> None
   \<and> typescript (proj_config demo_ts)
   \<and> length (running ''p''
        (fold (rebuildProject demo_ts) [''manual'', ''file-change'', ''manual''] ts_started)) = 3
   \<and> \<not> typescript (proj_config demo_project)
   \<and> inflight (rebuildProject demo_project ''manual'' demo_started) = inflight demo_started"
proof -
  have a: "map_of (previewServers ts_started) (proj_id demo_ts) \<noteq> None"
    by (simp add: demo_ts_fields ts_started_fields)
  have b: "\<not> typescript (proj_config demo_project)"
    by (simp add: demo_project_def)
  have c: "running ''p'' ts_started = []"
    by (simp add: running_def ts_started_fields)
  from a b c demo_ts_fields
    triggers_run_concurrently [where s = ts_started and project = demo_ts
      and triggers = "[''manual'', ''file-change'', ''manual'']"]
    triggers_run_concurrently [where s = demo_started and project = demo_project
      and trigger = "''manual''"]
  show ?thesis by simp
qed

text \<open>
  Claim C2 as stated fails: a manual trigger and a debounce firing for the same project,
  the second while the first waits for the compiler, are two runs under way together.
\<close>

theorem one_running_counterexample:
  "running ''p'' (rebuildProject demo_ts ''file-change'' (rebuildProject demo_ts ''manual'' ts_started))
     = [(0, demo_ts, ''manual''), (1, demo_ts, ''file-change'')]"
  by (simp add: running_def rebuildProject_inflight rebuildProject_frame ts_started_fields
      demo_ts_fields rebuildProject_def)

lemma ts_watched_fields:
  "map_of (previewServers ts_watched) ''p'' =
     Some \<lparr>si_project = demo_ts, si_url = ''/projects/p'', si_port = 4001,
            si_status = ''ready'', si_startTime = 0\<rparr>"
  "inflight ts_watched = []" "next_job ts_watched = 0" "timers ts_watched = []"
  "now ts_watched = 0"
  "sent ts_watched = [(0, project_state ''p'' ''/projects/p'' ''ready'' 4001)]"
  "connections ts_watched = [(''p'', [0])]" "ws_open ts_watched = {0}"
  by (simp_all add: ts_watched_def handleWebSocketConnection_def ts_started_fields
      truthy_def set_add_def ws_send_def Let_def)


lemma ts_compiling_fields:
  "map_of (inflight ts_compiling) 0 = Some (demo_ts, ''manual'')"
  "now ts_compiling = 40000"
  "sent ts_compiling = [(0, project_state ''p'' ''/projects/p'' ''ready'' 4001)]"
  "receivers ''p'' ts_compiling = [0]"
  "map_of (previewServers ts_compiling) ''p'' \<noteq> None"
  by (simp_all add: ts_compiling_def advance_idle rebuildProject_frame rebuildProject_inflight
      rebuildProject_sent receivers_def ts_watched_fields demo_ts_fields)

text \<open>
  Claim C6, as the code has it. \<open>compileTypeScript\<close> catches the failure of the compiler
  and returns, so the run goes on: whatever the outcome of the compile step and whenever
  it ends, the run sends \<open>rebuild-complete\<close> to the open sockets of the project and no
  \<open>rebuild-error\<close>, and the preview server entry stays, so that a later trigger starts a
  run as before. The message \<open>rebuild-error\<close> goes out when \<open>rebuildProject\<close> finds no
  preview server entry for the project, with the whole text of the error.
\<close>

theorem compile_failure_completes:
  "compile_done job r s = compile_done job exec_ok s
   \<and> (map_of (inflight s) job = Some (project, trigger) \<longrightarrow>
        sent (compile_done job r s) =
          sent s @ map (\<lambda>ws. (ws, rebuild_complete (proj_id project) trigger (now s)))
                       (receivers (proj_id project) s))
   \<and> previewServers (compile_done job r s) = previewServers s
   \<and> (map_of (previewServers s) (proj_id project) \<noteq> None \<and> typescript (proj_config project) \<longrightarrow>
        running (proj_id project) (rebuildProject project again (compile_done job r s)) =
          running (proj_id project) (compile_done job r s) @ [(next_job s, project, again)])
   \<and> (map_of (previewServers s) (proj_id project) = None \<longrightarrow>
        sent (rebuildProject project trigger s) =
          sent s @ map (\<lambda>ws. (ws, rebuild_error (proj_id project)
                                   ''Preview server not found for project'' (now s)))
                       (receivers (proj_id project) s))"
  using compile_done_any_result [of job r s]
  by (simp add: compile_done_sent compile_done_frame rebuildProject_running rebuildProject_sent)


lemma lone_socket_fields:
  "map_of (previewServers lone_socket) ''p'' = None" "sent lone_socket = []"
  "now lone_socket = 0" "receivers ''p'' lone_socket = [0]"
  by (simp_all add: lone_socket_def handleWebSocketConnection_def LivePreview_new_def
      truthy_def set_add_def receivers_def Let_def)

theorem compile_failure_completes_witness:
  "map_of (inflight ts_compiling) 0 = Some (demo_ts, ''manual'')
   \<and> sent (compile_done 0 (exec_error ''error TS2322'') ts_compiling) =
       [(0, project_state ''p'' ''/projects/p'' ''ready'' 4001),
        (0, rebuild_complete ''p'' ''manual'' 40000)]
   \<and> map_of (previewServers ts_compiling) (proj_id demo_ts) \<noteq> None
   \<and> typescript (proj_config demo_ts)
   \<and> running ''p'' (rebuildProject demo_ts ''file-change''
                       (compile_done 0 (exec_error ''error TS2322'') ts_compiling)) =
       running ''p'' (compile_done 0 (exec_error ''error TS2322'') ts_compiling)
         @ [(next_job ts_compiling, demo_ts, ''file-change'')]
   \<and> map_of (previewServers lone_socket) (proj_id demo_ts) = None
   \<and> sent (rebuildProject demo_ts ''manual'' lone_socket) =
       [(0, rebuild_error ''p'' ''Preview server not found for project'' 0)]"
  using ts_compiling_fields lone_socket_fields demo_ts_fields
    compile_failure_completes [where s = ts_compiling and job = 0 and project = demo_ts
      and trigger = "''manual''" and r = "exec_error ''error TS2322''"
      and again = "''file-change''", THEN conjunct2]
    compile_failure_completes [where s = lone_socket and project = demo_ts
      and trigger = "''manual''" and job = 0 and r = exec_ok and again = "''manual''", THEN conjunct2]
  by simp

text \<open>
  Claim C6 as stated fails: the compiler of a run fails after 40 seconds, and the socket
  of the project receives \<open>rebuild-complete\<close> and no \<open>rebuild-error\<close>.
\<close>

theorem compile_failure_counterexample:
  "sent (compile_done 0 (exec_error ''error TS2322: type mismatch'') ts_compiling) =
     [(0, project_state ''p'' ''/projects/p'' ''ready'' 4001),
      (0, rebuild_complete ''p'' ''manual'' 40000)]"
  by (simp add: compile_done_sent [OF ts_compiling_fields(1)] ts_compiling_fields demo_ts_fields)

section \<open>Starting a preview\<close>

lemma startPreview_fresh:
  assumes "prt \<notin> fst ` set (listening s)"
  shows "fst (startPreview project prt s) = Inr (''/projects/'' @ proj_id project)"
    and "listening (snd (startPreview project prt s)) = listening s @ [(prt, project)]"
    and "open_watchers (snd (startPreview project prt s)) =
           open_watchers s @ [(next_watcher s, project)]"
    and "projectWatchers (snd (startPreview project prt s)) =
           AList.update (proj_id project) (next_watcher s) (projectWatchers s)"
    and "previewServers (snd (startPreview project prt s)) =
           AList.update (proj_id project)
             \<lparr>si_project = project, si_url = ''/projects/'' @ proj_id project, si_port = prt,
               si_status = ''ready'', si_startTime = now s\<rparr> (previewServers s)"
    and "connections (snd (startPreview project prt s)) =
           AList.update (proj_id project) [] (connections s)"
    and "sent (snd (startPreview project prt s)) = sent s"
  using assms
  by (simp_all add: start_defs op_defs Let_def map_of_eq_None_iff AList.update_conv'
      split: option.splits)

lemma update_one_entry:
  "distinct (map fst al) \<Longrightarrow> length (filter (\<lambda>(k', _). k' = k) (AList.update k v al)) = 1"
proof (induction al)
  case Nil
  then show ?case by simp
next
  case (Cons e al)
  obtain k' v' where e: "e = (k', v')" by (cases e)
  show ?case
  proof (cases "k' = k")
    case True
    with Cons.prems e have "k \<notin> fst ` set al" by simp
    then have "filter (\<lambda>(k', _). k' = k) al = []"
      by (force simp: filter_empty_conv)
    with True e show ?thesis by simp
  next
    case False
    with Cons e show ?thesis by simp
  qed
qed

text \<open>
  Claim C4, as the code has it. \<open>setupProject\<close> does not look for an earlier preview of
  the project: every start for which the port is free succeeds, adds one server to those
  that listen and one watcher to those that watch, and replaces the project's entry in
  \<open>previewServers\<close> by the new binding and its set of sockets by an empty one.
  \<open>previewServers\<close> stays a map: one entry for the id, that of the latest start.
\<close>

theorem start_opens_another_port:
  "prt \<notin> fst ` set (listening s) \<longrightarrow>
     fst (startPreview project prt s) = Inr (''/projects/'' @ proj_id project)
     \<and> listening (snd (startPreview project prt s)) = listening s @ [(prt, project)]
     \<and> open_watchers (snd (startPreview project prt s)) =
         open_watchers s @ [(next_watcher s, project)]
     \<and> map_of (previewServers (snd (startPreview project prt s))) (proj_id project) =
         Some \<lparr>si_project = project, si_url = ''/projects/'' @ proj_id project, si_port = prt,
                si_status = ''ready'', si_startTime = now s\<rparr>
     \<and> map_of (connections (snd (startPreview project prt s))) (proj_id project) = Some []
     \<and> (distinct (map fst (previewServers s)) \<longrightarrow>
          distinct (map fst (previewServers (snd (startPreview project prt s))))
          \<and> length (filter (\<lambda>(k, _). k = proj_id project)
                       (previewServers (snd (startPreview project prt s)))) = 1)"
  by (simp add: startPreview_fresh AList.update_conv' AList.distinct_update update_one_entry)

lemma demo_started_fields2:
  "listening demo_started = [(4001, demo_project)]"
  "open_watchers demo_started = [(0, demo_project)]"
  "next_watcher demo_started = 1"
  "map fst (previewServers demo_started) = [''p'']"
  "connections demo_started = [(''p'', [])]"
  by (simp_all add: demo_started_def start_defs op_defs Let_def demo_project_def)

theorem start_opens_another_port_witness:
  "4002 \<notin> fst ` set (listening demo_started)
   \<and> fst (startPreview demo_project 4002 demo_started) = Inr ''/projects/p''
   \<and> map fst (listening (snd (startPreview demo_project 4002 demo_started))) = [4001, 4002]
   \<and> map fst (open_watchers (snd (startPreview demo_project 4002 demo_started))) = [0, 1]
   \<and> distinct (map fst (previewServers demo_started))
   \<and> length (filter (\<lambda>(k, _). k = ''p'')
                (previewServers (snd (startPreview demo_project 4002 demo_started)))) = 1"
  using start_opens_another_port [where s = demo_started and prt = 4002 and project = demo_project]
  by (simp add: demo_started_fields2 demo_project_def)

text \<open>
  Claim C4 as stated fails: the second start of the same project returns its URL again,
  and two ports are bound and two watchers open for it.
\<close>

theorem start_idempotent_counterexample:
  "fst (startPreview demo_project 4002 demo_started) = Inr ''/projects/p''
   \<and> listening (snd (startPreview demo_project 4002 demo_started)) =
       [(4001, demo_project), (4002, demo_project)]
   \<and> open_watchers (snd (startPreview demo_project 4002 demo_started)) =
       [(0, demo_project), (1, demo_project)]"
  by (simp add: startPreview_fresh demo_started_fields2 demo_project_def)

section \<open>Stopping a preview\<close>










lemma demo_watched_run:
  "demo_watched =
     run [act_startPreview demo_project 4001, act_connect (Some ''p'')] (LivePreview_new ''/work'')"
  by (simp add: demo_watched_def demo_started_def run_def)









section \<open>The middleware chain\<close>

lemma find_first:
  assumes "\<forall>y \<in> set before. \<not> P y" and "P x"
  shows "find P (before @ x # after) = Some x"
  using assms by (induction before) simp_all

lemma find_none: "(\<forall>y \<in> set xs. \<not> P y) \<Longrightarrow> find P xs = None"
  by (induction xs) simp_all

text \<open>
  Claim C5, as the code has it. The static files come first: a request for which
  \<open>express.static\<close> finds a file under the project root is answered with that file,
  whether or not a proxy rule matches it. A request for which neither the root nor the
  \<open>/dist\<close> mount has a file goes to the first proxy rule, in declaration order, that
  matches its path. A request that no file and no rule answers is sent \<open>index.html\<close> when
  its method is \<open>GET\<close> or \<open>HEAD\<close>, and is left unanswered by the chain otherwise.
\<close>

theorem static_then_proxy_then_index:
  "(static_lookup ex (proj_path project) (req_method req) (req_url req) = Some found \<longrightarrow>
      handle_request ex project req = served_static found)
   \<and> (static_lookup ex (proj_path project) (req_method req) (req_url req) = None
      \<and> dist_lookup ex project req = None
      \<and> proxy (proj_config project) = before @ (mountpath, target) # after
      \<and> (\<forall>(m, t) \<in> set before. mount_match ex m (req_url req) = None)
      \<and> mount_match ex mountpath (req_url req) \<noteq> None \<longrightarrow>
      handle_request ex project req = proxied target)
   \<and> (static_lookup ex (proj_path project) (req_method req) (req_url req) = None
      \<and> dist_lookup ex project req = None
      \<and> (\<forall>(m, t) \<in> set (proxy (proj_config project)). mount_match ex m (req_url req) = None) \<longrightarrow>
      handle_request ex project req =
        (if req_method req = ''GET'' \<or> req_method req = ''HEAD''
         then sent_index (path_join (proj_path project) ''index.html'') else unhandled))"
proof (intro conjI impI)
  assume "static_lookup ex (proj_path project) (req_method req) (req_url req) = Some found"
  then show "handle_request ex project req = served_static found"
    by (simp add: handle_request_def)
next
  assume a: "static_lookup ex (proj_path project) (req_method req) (req_url req) = None
      \<and> dist_lookup ex project req = None
      \<and> proxy (proj_config project) = before @ (mountpath, target) # after
      \<and> (\<forall>(m, t) \<in> set before. mount_match ex m (req_url req) = None)
      \<and> mount_match ex mountpath (req_url req) \<noteq> None"
  then have "find (\<lambda>(m, t). mount_match ex m (req_url req) \<noteq> None)
               (before @ (mountpath, target) # after) = Some (mountpath, target)"
    by (intro find_first) auto
  with a show "handle_request ex project req = proxied target"
    by (simp add: handle_request_def)
next
  assume a: "static_lookup ex (proj_path project) (req_method req) (req_url req) = None
      \<and> dist_lookup ex project req = None
      \<and> (\<forall>(m, t) \<in> set (proxy (proj_config project)). mount_match ex m (req_url req) = None)"
  then have "find (\<lambda>(m, t). mount_match ex m (req_url req) \<noteq> None)
               (proxy (proj_config project)) = None"
    by (intro find_none) auto
  with a show "handle_request ex project req =
        (if req_method req = ''GET'' \<or> req_method req = ''HEAD''
         then sent_index (path_join (proj_path project) ''index.html'') else unhandled)"
    by (simp add: handle_request_def)
qed

lemma plain_express_fields:
  "static_lookup (plain_express files) root method url =
     (if (method = ''GET'' \<or> method = ''HEAD'') \<and> root @ url \<in> set files
      then Some (root @ url) else None)"
  "mount_match (plain_express files) mountpath url =
     (if url = mountpath then Some ''/''
      else if prefix (mountpath @ ''/'') url then Some (drop (length mountpath) url)
      else None)"
  by (simp_all add: plain_express_def)

lemma index_of_q: "path_join ''/tmp/q'' ''index.html'' = ''/tmp/q/index.html''"
  by (simp add: path_join_def is_absolute_def)

theorem static_then_proxy_then_index_witness:
  "handle_request (plain_express [''/tmp/q/api/data''])
       demo_proxy \<lparr>req_method = ''GET'', req_url = ''/api/data''\<rparr> = served_static ''/tmp/q/api/data''
   \<and> handle_request (plain_express [''/tmp/q/api/data''])
       demo_proxy \<lparr>req_method = ''GET'', req_url = ''/api/v2/users''\<rparr> = proxied ''http://localhost:5000''
   \<and> handle_request (plain_express [''/tmp/q/api/data''])
       demo_proxy \<lparr>req_method = ''GET'', req_url = ''/app/settings''\<rparr> = sent_index ''/tmp/q/index.html''"
proof -
  let ?ex = "plain_express [''/tmp/q/api/data'']"
  have 1: "handle_request ?ex demo_proxy \<lparr>req_method = ''GET'', req_url = ''/api/data''\<rparr>
      = served_static ''/tmp/q/api/data''"
    using static_then_proxy_then_index [where ex = ?ex and project = demo_proxy
        and req = "\<lparr>req_method = ''GET'', req_url = ''/api/data''\<rparr>"
        and found = "''/tmp/q/api/data''", THEN conjunct1]
    by (simp add: plain_express_fields demo_proxy_def)
  have 2: "handle_request ?ex demo_proxy \<lparr>req_method = ''GET'', req_url = ''/api/v2/users''\<rparr>
      = proxied ''http://localhost:5000''"
    using static_then_proxy_then_index [where ex = ?ex and project = demo_proxy
        and req = "\<lparr>req_method = ''GET'', req_url = ''/api/v2/users''\<rparr>"
        and before = "[]" and mountpath = "''/api''" and target = "''http://localhost:5000''"
        and after = "[(''/api/v2'', ''http://localhost:6000'')]",
        THEN conjunct2, THEN conjunct1]
    by (simp add: plain_express_fields demo_proxy_def dist_lookup_def)
  have 3: "handle_request ?ex demo_proxy \<lparr>req_method = ''GET'', req_url = ''/app/settings''\<rparr>
      = sent_index ''/tmp/q/index.html''"
    using static_then_proxy_then_index [where ex = ?ex and project = demo_proxy
        and req = "\<lparr>req_method = ''GET'', req_url = ''/app/settings''\<rparr>",
        THEN conjunct2, THEN conjunct2]
    by (simp add: plain_express_fields demo_proxy_def dist_lookup_def index_of_q)
  from 1 2 3 show ?thesis by blast
qed

text \<open>
  Claim C5 as stated fails: the first proxy rule matches the path \<open>/api/data\<close>, a static
  file exists at that path, and the static file is the answer.
\<close>

theorem proxy_first_counterexample:
  "mount_match (plain_express [''/tmp/q/api/data'']) ''/api'' ''/api/data'' = Some ''/data''
   \<and> handle_request (plain_express [''/tmp/q/api/data''])
       demo_proxy \<lparr>req_method = ''GET'', req_url = ''/api/data''\<rparr> = served_static ''/tmp/q/api/data''"
  by (simp add: handle_request_def plain_express_fields demo_proxy_def)

section \<open>The permission check\<close>













section \<open>What a socket receives\<close>










































end
